theory Spec2Isabelle
  imports Main "HOL-Library.Word"
begin

unbundle bit_operations_syntax

section \<open>The ffmpeg input of CasparCG: \<^verbatim>\<open>modules/ffmpeg/producer/input.cpp\<close>\<close>

text \<open>
  A shallow embedding of \<^verbatim>\<open>input::implementation\<close>. The object is a record that every
  member function takes and returns. The answers of libavformat (open, stream info,
  seek) are the fields of \<^verbatim>\<open>AVFormatContext\<close>; the result of each \<^verbatim>\<open>av_read_frame\<close> is
  an argument of \<^verbatim>\<open>read_file\<close>. A C++ exception is the outcome \<^verbatim>\<open>Throw\<close>, carrying the
  object as it is at the throw; behaviour that C++ leaves undefined (a null
  dereference, a division by zero, signed overflow) is the outcome \<^verbatim>\<open>Undefined\<close>.
  The 32-bit counters \<^verbatim>\<open>start_frame_\<close>, \<^verbatim>\<open>end_frame_\<close>, \<^verbatim>\<open>eof_count_\<close> are integers
  without a bound; the one product the source computes in \<^verbatim>\<open>int\<close> before widening
  (in \<^verbatim>\<open>seek_frame\<close>) has its range written out.
\<close>

subsection \<open>Constants\<close>

definition PACKET_BUFFER_COUNT :: nat where
  "PACKET_BUFFER_COUNT = 25"

text \<open>
  Constants of the libavformat headers the file includes: \<^verbatim>\<open>AVERROR(EPIPE)\<close>,
  \<^verbatim>\<open>AVERROR(EIO)\<close>, the time units per second, the seek flags and the codec types.
\<close>

definition AVERROR_EOF :: int where
  "AVERROR_EOF = - 32"

definition AVERROR_IO :: int where
  "AVERROR_IO = - 5"

definition AV_TIME_BASE :: int where
  "AV_TIME_BASE = 1000000"

definition AVSEEK_FLAG_BACKWARD :: int where
  "AVSEEK_FLAG_BACKWARD = 1"

definition AVSEEK_FLAG_FRAME :: int where
  "AVSEEK_FLAG_FRAME = 8"

definition CODEC_TYPE_VIDEO :: int where
  "CODEC_TYPE_VIDEO = 0"

definition CODEC_TYPE_AUDIO :: int where
  "CODEC_TYPE_AUDIO = 1"

subsection \<open>The packet queues\<close>

type_synonym aligned_buffer = "8 word list"

text \<open>
  \<^verbatim>\<open>tbb::concurrent_bounded_queue\<close>: a first-in first-out list and a capacity.
  \<^verbatim>\<open>try_push\<close> appends when the queue holds fewer items than its capacity and
  answers whether it did; \<^verbatim>\<open>try_pop\<close> removes the head when there is one. A queue
  on which \<^verbatim>\<open>set_capacity\<close> was never called has the library's default capacity,
  \<^verbatim>\<open>size_t(-1) / sizeof(item)\<close>: here a 32-bit \<^verbatim>\<open>size_t\<close> and an 8-byte shared pointer.
\<close>

record concurrent_bounded_queue =
  items :: "aligned_buffer list"
  capacity :: nat

definition tbb_default_capacity :: nat where
  "tbb_default_capacity = (2 ^ 32 - 1) div 8"

definition new_queue :: concurrent_bounded_queue where
  "new_queue = \<lparr>items = [], capacity = tbb_default_capacity\<rparr>"

definition try_push :: "concurrent_bounded_queue \<Rightarrow> aligned_buffer \<Rightarrow> bool \<times> concurrent_bounded_queue" where
  "try_push q x =
     (if length (items q) < capacity q then (True, q\<lparr>items := items q @ [x]\<rparr>)
      else (False, q))"

definition try_pop :: "concurrent_bounded_queue \<Rightarrow> aligned_buffer option \<times> concurrent_bounded_queue" where
  "try_pop q =
     (case items q of
        [] \<Rightarrow> (None, q)
      | x # xs \<Rightarrow> (Some x, q\<lparr>items := xs\<rparr>))"

definition size_q :: "concurrent_bounded_queue \<Rightarrow> nat" where
  "size_q q = length (items q)"

definition empty_q :: "concurrent_bounded_queue \<Rightarrow> bool" where
  "empty_q q = (items q = [])"

fun push_all :: "concurrent_bounded_queue \<Rightarrow> aligned_buffer list \<Rightarrow> bool list \<times> concurrent_bounded_queue" where
  "push_all q [] = ([], q)"
| "push_all q (x # xs) =
     (let (b, q1) = try_push q x; (bs, q2) = push_all q1 xs in (b # bs, q2))"

subsection \<open>What libavformat holds and answers\<close>

record AVCodecContext =
  time_base_num :: int
  time_base_den :: int
  frame_number :: int

text \<open>
  A stream slot: its codec type, its index, whether \<^verbatim>\<open>avcodec_find_decoder\<close> finds a
  decoder for it, what \<^verbatim>\<open>avcodec_open\<close> returns, and its codec context.
\<close>

record AVStream =
  codec_type :: int
  index :: int
  has_decoder :: bool
  avcodec_open_ret :: int
  codec :: AVCodecContext

text \<open>
  What the constructor meets outside the object. Of the media file: the return value of
  \<^verbatim>\<open>av_open_input_file\<close> and whether it left the context null, the return value of
  \<^verbatim>\<open>av_find_stream_info\<close>, the stream slots (a null slot is \<^verbatim>\<open>None\<close>), and the return
  value of \<^verbatim>\<open>av_seek_frame\<close> for a stream index, a timestamp and flags. Of the platform's
  floating-point library: \<^verbatim>\<open>float_log10 d\<close> is the value of
  \<^verbatim>\<open>static_cast<int>(std::log10(static_cast<float>(d)))\<close> for a positive \<^verbatim>\<open>d\<close>. C++ fixes
  neither the rounding of the conversion nor the accuracy of \<^verbatim>\<open>std::log10\<close>, and for a
  denominator at or just below a power of ten the integer part depends on both, so the
  value is a parameter and not computed here.
\<close>

record AVFormatContext =
  av_open_input_file_ret :: int
  context_null :: bool
  av_find_stream_info_ret :: int
  streams :: "AVStream option list"
  av_seek_frame_ret :: "int \<Rightarrow> int \<Rightarrow> int \<Rightarrow> int"
  float_log10 :: "int \<Rightarrow> int"

record AVPacket =
  packet_data :: aligned_buffer
  stream_index :: int

subsection \<open>The object\<close>

datatype error = Invalid_argument | File_read_error | Invalid_operation

datatype event =
    Set_color string
  | Add_tag string
  | Update_value string nat nat
  | Log_warning string
  | Log_info string
  | Log_exception error

datatype call =
    Av_open_input_file
  | Av_find_stream_info
  | Av_seek_frame int int int
  | Av_read_frame

text \<open>
  Where the worker thread is: outside the wait (\<^verbatim>\<open>Idle\<close>), inside \<^verbatim>\<open>cond_.wait\<close>
  (\<^verbatim>\<open>Blocked\<close>), or woken by \<^verbatim>\<open>notify_all\<close> and about to evaluate the loop condition
  again (\<^verbatim>\<open>Woken\<close>).
\<close>

datatype worker_state = Idle | Blocked | Woken

text \<open>
  The members of \<^verbatim>\<open>input::implementation\<close>, without the trailing underscore.
  \<^verbatim>\<open>notified\<close> counts the calls of \<^verbatim>\<open>cond_.notify_all()\<close>; \<^verbatim>\<open>worker\<close> is the place of the
  worker thread; \<^verbatim>\<open>diagnostics\<close> is what went to the graph and the log, \<^verbatim>\<open>calls\<close> what was
  asked of libavformat, both in order.
\<close>

record implementation =
  format_context :: "AVFormatContext option"
  video_codec_context :: "AVCodecContext option"
  audio_codex_context :: "AVCodecContext option"
  filename :: string
  loop :: bool
  video_s_index :: int
  audio_s_index :: int
  start_frame :: int
  end_frame :: int
  eof_count :: int
  video_packet_buffer :: concurrent_bounded_queue
  audio_packet_buffer :: concurrent_bounded_queue
  notified :: nat
  worker :: worker_state
  exception :: "error option"
  running :: bool
  scheduled :: nat
  diagnostics :: "event list"
  calls :: "call list"

datatype 'a outcome = Ok 'a | Throw error implementation | Undefined

definition obind :: "'a outcome \<Rightarrow> ('a \<Rightarrow> 'b outcome) \<Rightarrow> 'b outcome" where
  "obind m f = (case m of Ok x \<Rightarrow> f x | Throw e s \<Rightarrow> Throw e s | Undefined \<Rightarrow> Undefined)"

text \<open>
  Modelled from the spec: the executor (\<^verbatim>\<open>common/concurrency/executor.h\<close>) is not among
  the sources. The spec gives the worker two states, running and stopped, with the only
  transition running to stopped; one dedicated worker runs the scheduled invocations, and
  observes a stop before it starts the next one.
\<close>

definition executor_start :: "implementation \<Rightarrow> implementation" where
  "executor_start s = s\<lparr>running := True\<rparr>"

definition executor_stop :: "implementation \<Rightarrow> implementation" where
  "executor_stop s = s\<lparr>running := False\<rparr>"

definition executor_clear :: "implementation \<Rightarrow> implementation" where
  "executor_clear s = s\<lparr>scheduled := 0\<rparr>"

definition begin_invoke :: "implementation \<Rightarrow> implementation" where
  "begin_invoke s = s\<lparr>scheduled := Suc (scheduled s)\<rparr>"

text \<open>
  Modelled from the spec: the diagnostics graph and the log (\<^verbatim>\<open>common/diagnostics/graph.h\<close>
  and the logging macros) are not among the sources. The spec has them record the
  buffer-fill ratio and the seek events for observation from outside; here every
  colour, tag, value and log line is appended to \<^verbatim>\<open>diagnostics\<close>, and every call into
  libavformat to \<^verbatim>\<open>calls\<close>.
\<close>

definition diag :: "event \<Rightarrow> implementation \<Rightarrow> implementation" where
  "diag e s = s\<lparr>diagnostics := diagnostics s @ [e]\<rparr>"

definition called :: "call \<Rightarrow> implementation \<Rightarrow> implementation" where
  "called c s = s\<lparr>calls := calls s @ [c]\<rparr>"

text \<open>\<^verbatim>\<open>cond_.notify_all()\<close>: a worker that sits in the wait is woken.\<close>

definition notify_all :: "implementation \<Rightarrow> implementation" where
  "notify_all s =
     s\<lparr>notified := Suc (notified s),
       worker := (if worker s = Blocked then Woken else worker s)\<rparr>"

subsection \<open>The member functions\<close>

text \<open>
  The integer part of the decimal logarithm in exact arithmetic. It is what
  \<^verbatim>\<open>float_log10\<close> is compared with; the member functions do not use it.
\<close>

function ilog10 :: "nat \<Rightarrow> nat" where
  "ilog10 n = (if n < 10 then 0 else Suc (ilog10 (n div 10)))"
  by pat_completeness auto
termination
  by (relation "measure (\<lambda>n. n)") auto

declare ilog10.simps [simp del]

text \<open>
  \<^verbatim>\<open>static_cast<int>(std::pow(10.0, e))\<close> for an integer \<^verbatim>\<open>e\<close>: the power of ten, which a
  \<^verbatim>\<open>double\<close> holds exactly for the exponents that occur, and 0 for a negative exponent
  (0.1 truncated).
\<close>

definition pow10_int :: "int \<Rightarrow> int" where
  "pow10_int e = (if e < 0 then 0 else 10 ^ nat e)"

text \<open>
  \<^verbatim>\<open>fix_time_base\<close>, with the platform's \<^verbatim>\<open>static_cast<int>(std::log10(static_cast<float>(d)))\<close>
  as its first argument: a numerator 1 is replaced by
  \<^verbatim>\<open>static_cast<int>(std::pow(10.0, static_cast<int>(std::log10(static_cast<float>(den))) - 1))\<close>.
  For a denominator that is 0 or negative the logarithm is minus infinity or not a
  number, and its conversion to \<^verbatim>\<open>int\<close> is undefined.
\<close>

definition fix_time_base ::
  "(int \<Rightarrow> int) \<Rightarrow> AVCodecContext option \<Rightarrow> AVCodecContext option outcome" where
  "fix_time_base log10_of context =
     (case context of
        None \<Rightarrow> Ok None
      | Some c \<Rightarrow>
          if time_base_num c = 1 then
            (if time_base_den c \<le> 0 then Undefined
             else Ok (Some (c\<lparr>time_base_num :=
                    pow10_int (log10_of (time_base_den c) - 1)\<rparr>)))
          else Ok (Some c))"

text \<open>
  \<^verbatim>\<open>open_stream\<close>: the first non-null slot of the wanted codec type; no result when
  there is none, when it has no decoder or when \<^verbatim>\<open>avcodec_open\<close> fails; otherwise the
  slot's codec context and its index (the source writes the index through \<^verbatim>\<open>s_index\<close>).
\<close>

definition open_stream :: "AVFormatContext \<Rightarrow> int \<Rightarrow> (AVCodecContext \<times> int) option" where
  "open_stream fc ct =
     (case find (\<lambda>st. case st of None \<Rightarrow> False | Some x \<Rightarrow> codec_type x = ct) (streams fc) of
        Some (Some st) \<Rightarrow>
          if \<not> has_decoder st then None
          else if - avcodec_open_ret st > 0 then None
          else Some (codec st, index st)
      | _ \<Rightarrow> None)"

definition get_default_context :: "implementation \<Rightarrow> AVCodecContext option" where
  "get_default_context s =
     (case video_codec_context s of Some c \<Rightarrow> Some c | None \<Rightarrow> audio_codex_context s)"

definition is_eof :: "implementation \<Rightarrow> int \<Rightarrow> bool option" where
  "is_eof s errn =
     (if end_frame s \<noteq> - 1 then
        (case get_default_context s of
           None \<Rightarrow> None
         | Some c \<Rightarrow> Some (frame_number c > eof_count s))
      else Some (errn = AVERROR_EOF \<or> errn = AVERROR_IO))"

definition stop :: "implementation \<Rightarrow> implementation" where
  "stop s = diag (Log_info '' eof'') (executor_stop s)"

text \<open>C++ integer division truncates towards zero.\<close>

definition tdiv :: "int \<Rightarrow> int \<Rightarrow> int" where
  "tdiv a b = sgn a * sgn b * (\<bar>a\<bar> div \<bar>b\<bar>)"

definition in_int32 :: "int \<Rightarrow> bool" where
  "in_int32 x = (- (2 ^ 31) \<le> x \<and> x < 2 ^ 31)"

definition in_int64 :: "int \<Rightarrow> bool" where
  "in_int64 x = (- (2 ^ 63) \<le> x \<and> x < 2 ^ 63)"

text \<open>
  \<^verbatim>\<open>seek_frame\<close>. The source computes \<^verbatim>\<open>(AV_TIME_BASE * num) / den\<close> in \<^verbatim>\<open>int\<close>, widens the
  quotient to 64 bits and multiplies it by the frame number. A zero denominator and a
  product outside the type are undefined behaviour. The seek is asked of stream index
  -1 with \<^verbatim>\<open>flags | AVSEEK_FLAG_FRAME\<close>; a negative answer throws, and only after a
  successful seek are the two empty buffers pushed.
\<close>

definition seek_frame :: "implementation \<Rightarrow> int \<Rightarrow> int \<Rightarrow> implementation outcome" where
  "seek_frame s frame flags =
     (case (format_context s, get_default_context s) of
        (Some fc, Some c) \<Rightarrow>
          if time_base_den c \<noteq> 0 \<and> in_int32 (AV_TIME_BASE * time_base_num c) then
            let ts = frame * tdiv (AV_TIME_BASE * time_base_num c) (time_base_den c) in
            if in_int64 ts then
              let errn = av_seek_frame_ret fc (- 1) ts (flags OR AVSEEK_FLAG_FRAME);
                  s1 = called (Av_seek_frame (- 1) ts (flags OR AVSEEK_FLAG_FRAME)) s
              in
                if errn < 0 then Throw Invalid_operation s1
                else
                  let s2 = s1\<lparr>video_packet_buffer := snd (try_push (video_packet_buffer s1) [])\<rparr>
                  in Ok (s2\<lparr>audio_packet_buffer := snd (try_push (audio_packet_buffer s2) [])\<rparr>)
            else Undefined
          else Undefined
      | _ \<Rightarrow> Undefined)"

text \<open>
  The graph's value \<^verbatim>\<open>input-buffer\<close>: the size of the video queue over
  \<^verbatim>\<open>PACKET_BUFFER_COUNT\<close>, kept as the two numbers.
\<close>

definition update_input_buffer :: "implementation \<Rightarrow> implementation" where
  "update_input_buffer s =
     diag (Update_value ''input-buffer'' (size_q (video_packet_buffer s)) PACKET_BUFFER_COUNT) s"

text \<open>The \<^verbatim>\<open>try\<close> block of \<^verbatim>\<open>read_file\<close>; \<^verbatim>\<open>r\<close> is what \<^verbatim>\<open>av_read_frame\<close> returned and read.\<close>

definition read_file_try :: "implementation \<Rightarrow> int \<times> AVPacket \<Rightarrow> implementation outcome" where
  "read_file_try s r =
     (let s0 = called Av_read_frame s;
          read_frame_ret = fst r;
          read_packet = snd r
      in
        obind
          (case is_eof s0 read_frame_ret of
             None \<Rightarrow> Undefined
           | Some True \<Rightarrow>
               if loop s0 then
                 obind (seek_frame s0 (start_frame s0) AVSEEK_FLAG_BACKWARD)
                   (\<lambda>s1. Ok (diag (Add_tag ''seek'')
                      (s1\<lparr>eof_count := eof_count s1 + (end_frame s1 - start_frame s1)\<rparr>)))
               else Ok (stop s0)
           | Some False \<Rightarrow>
               if read_frame_ret < 0 then Throw Invalid_operation s0
               else if stream_index read_packet = video_s_index s0 then
                 Ok (s0\<lparr>video_packet_buffer :=
                       snd (try_push (video_packet_buffer s0) (packet_data read_packet))\<rparr>)
               else if stream_index read_packet = audio_s_index s0 then
                 Ok (s0\<lparr>audio_packet_buffer :=
                       snd (try_push (audio_packet_buffer s0) (packet_data read_packet))\<rparr>)
               else Ok s0)
          (\<lambda>s1. Ok (update_input_buffer s1)))"

text \<open>The condition of the \<^verbatim>\<open>while\<close> loop around \<^verbatim>\<open>cond_.wait\<close>.\<close>

definition wait_condition :: "implementation \<Rightarrow> bool" where
  "wait_condition s =
     (running s \<and> size_q (audio_packet_buffer s) > PACKET_BUFFER_COUNT
        \<and> size_q (video_packet_buffer s) > PACKET_BUFFER_COUNT)"

text \<open>
  One invocation of \<^verbatim>\<open>read_file\<close>, up to the point where it returns or sits in
  \<^verbatim>\<open>cond_.wait\<close>. The handler \<^verbatim>\<open>catch(...)\<close> stops, logs the exception and returns.
\<close>

definition read_file :: "implementation \<Rightarrow> int \<times> AVPacket \<Rightarrow> implementation outcome" where
  "read_file s r =
     (case read_file_try s r of
        Throw e s1 \<Rightarrow> Ok ((diag (Log_exception e) (stop s1))\<lparr>worker := Idle\<rparr>)
      | Undefined \<Rightarrow> Undefined
      | Ok s1 \<Rightarrow>
          let s2 = begin_invoke s1
          in Ok (s2\<lparr>worker := (if wait_condition s2 then Blocked else Idle)\<rparr>))"

text \<open>
  The step of the worker thread after \<^verbatim>\<open>notify_all\<close> woke it: it evaluates the loop
  condition again, goes back to waiting when the condition holds, and leaves
  \<^verbatim>\<open>read_file\<close> otherwise.
\<close>

definition wake :: "implementation \<Rightarrow> implementation" where
  "wake s =
     (if worker s = Woken then s\<lparr>worker := (if wait_condition s then Blocked else Idle)\<rparr>
      else s)"

text \<open>
  \<^verbatim>\<open>get_packet\<close> calls \<^verbatim>\<open>cond_.notify_all()\<close> first and \<^verbatim>\<open>try_pop\<close> second, and holds no
  mutex: the worker thread can take steps between the two statements. \<^verbatim>\<open>get_packet\<close>,
  \<^verbatim>\<open>get_video_packet\<close> and \<^verbatim>\<open>get_audio_packet\<close> below are the two statements with nothing
  between them; \<^verbatim>\<open>get_video_packet_interleaved\<close> and \<^verbatim>\<open>get_audio_packet_interleaved\<close>
  are the same two statements with the steps \<^verbatim>\<open>others\<close> of the worker thread between
  them.
\<close>

definition get_packet ::
  "implementation \<Rightarrow> concurrent_bounded_queue \<Rightarrow>
     implementation \<times> aligned_buffer option \<times> concurrent_bounded_queue" where
  "get_packet s buffer = (notify_all s, try_pop buffer)"

definition get_video_packet :: "implementation \<Rightarrow> aligned_buffer option \<times> implementation" where
  "get_video_packet s =
     (let (s1, packet, buffer) = get_packet s (video_packet_buffer s)
      in (packet, s1\<lparr>video_packet_buffer := buffer\<rparr>))"

definition get_audio_packet :: "implementation \<Rightarrow> aligned_buffer option \<times> implementation" where
  "get_audio_packet s =
     (let (s1, packet, buffer) = get_packet s (audio_packet_buffer s)
      in (packet, s1\<lparr>audio_packet_buffer := buffer\<rparr>))"

definition get_video_packet_interleaved ::
  "(implementation \<Rightarrow> implementation) \<Rightarrow> implementation
     \<Rightarrow> aligned_buffer option \<times> implementation" where
  "get_video_packet_interleaved others s =
     (let s1 = others (notify_all s)
      in (fst (try_pop (video_packet_buffer s1)),
          s1\<lparr>video_packet_buffer := snd (try_pop (video_packet_buffer s1))\<rparr>))"

definition get_audio_packet_interleaved ::
  "(implementation \<Rightarrow> implementation) \<Rightarrow> implementation
     \<Rightarrow> aligned_buffer option \<times> implementation" where
  "get_audio_packet_interleaved others s =
     (let s1 = others (notify_all s)
      in (fst (try_pop (audio_packet_buffer s1)),
          s1\<lparr>audio_packet_buffer := snd (try_pop (audio_packet_buffer s1))\<rparr>))"

definition has_packet :: "implementation \<Rightarrow> bool" where
  "has_packet s = (\<not> empty_q (video_packet_buffer s) \<or> \<not> empty_q (audio_packet_buffer s))"

definition is_running :: "implementation \<Rightarrow> bool" where
  "is_running s = running s"

text \<open>The destructor: \<^verbatim>\<open>executor_.clear()\<close>, \<^verbatim>\<open>executor_.stop()\<close>, \<^verbatim>\<open>cond_.notify_all()\<close>.\<close>

definition destroy :: "implementation \<Rightarrow> implementation" where
  "destroy s = diag (Log_info '' Stopped.'') (notify_all (executor_stop (executor_clear s)))"

subsection \<open>The constructor\<close>

text \<open>
  The member initialisers, in the order of the declarations. The difference that
  initialises \<^verbatim>\<open>eof_count_\<close>, and the sum that advances it in \<^verbatim>\<open>read_file\<close>, are taken in
  integers without a bound: nothing is said here about arguments for which the source's
  32-bit arithmetic overflows.
\<close>

definition init_members :: "string \<Rightarrow> bool \<Rightarrow> int \<Rightarrow> int \<Rightarrow> implementation" where
  "init_members fname lp start_frame_arg end_frame_arg =
     \<lparr>format_context = None,
      video_codec_context = None,
      audio_codex_context = None,
      filename = fname,
      loop = lp,
      video_s_index = - 1,
      audio_s_index = - 1,
      start_frame = max start_frame_arg 0,
      end_frame = end_frame_arg,
      eof_count = end_frame_arg - start_frame_arg,
      video_packet_buffer = new_queue,
      audio_packet_buffer = new_queue,
      notified = 0,
      worker = Idle,
      exception = None,
      running = False,
      scheduled = 0,
      diagnostics = [],
      calls = []\<rparr>"

text \<open>
  The two \<^verbatim>\<open>open_stream\<close> calls with what follows each. After the audio stream the
  source calls \<^verbatim>\<open>fix_time_base(video_codec_context_.get())\<close>, on the video context.
\<close>

definition open_video :: "AVFormatContext \<Rightarrow> implementation \<Rightarrow> implementation outcome" where
  "open_video fc s =
     (case open_stream fc CODEC_TYPE_VIDEO of
        None \<Rightarrow> Ok (diag (Log_warning '' Could not open any video stream.'') s)
      | Some (c, i) \<Rightarrow>
          obind (fix_time_base (float_log10 fc) (Some c))
            (\<lambda>c1. Ok (s\<lparr>video_codec_context := c1, video_s_index := i\<rparr>)))"

definition open_audio :: "AVFormatContext \<Rightarrow> implementation \<Rightarrow> implementation outcome" where
  "open_audio fc s =
     (case open_stream fc CODEC_TYPE_AUDIO of
        None \<Rightarrow> Ok (diag (Log_warning '' Could not open any audio stream.'') s)
      | Some (c, i) \<Rightarrow>
          obind (fix_time_base (float_log10 fc) (video_codec_context s))
            (\<lambda>c1. Ok (s\<lparr>audio_codex_context := Some c, audio_s_index := i,
                        video_codec_context := c1\<rparr>)))"

definition construct ::
  "AVFormatContext \<Rightarrow> string \<Rightarrow> bool \<Rightarrow> int \<Rightarrow> int \<Rightarrow> implementation outcome" where
  "construct fc fname lp start_frame_arg end_frame_arg =
     (let s0 = init_members fname lp start_frame_arg end_frame_arg in
      if end_frame s0 > 0 \<and> end_frame_arg \<le> start_frame s0 then Throw Invalid_argument s0
      else
        let s1 = diag (Set_color ''seek'') (diag (Set_color ''input-buffer'') s0);
            s2 = called Av_open_input_file s1
        in
          if av_open_input_file_ret fc < 0 \<or> context_null fc then Throw File_read_error s2
          else
            let s3 = called Av_find_stream_info (s2\<lparr>format_context := Some fc\<rparr>) in
            if av_find_stream_info_ret fc < 0 then Throw File_read_error s3
            else
              obind (open_video fc s3) (\<lambda>s4.
              obind (open_audio fc s4) (\<lambda>s5.
                if video_codec_context s5 = None \<and> audio_codex_context s5 = None
                then Throw File_read_error s5
                else
                  obind (if start_frame s5 \<noteq> 0 then seek_frame s5 (start_frame s5) 0 else Ok s5)
                    (\<lambda>s6. Ok (diag (Log_info '' Started.'')
                              (begin_invoke (executor_start s6)))))))"

subsection \<open>The worker\<close>

text \<open>
  Modelled from the spec: the executor's thread (not among the sources) runs one
  scheduled invocation of \<^verbatim>\<open>read_file\<close> at a time while the executor is running; a
  worker that sits in \<^verbatim>\<open>cond_.wait\<close> runs nothing.
\<close>

definition execute :: "implementation \<Rightarrow> int \<times> AVPacket \<Rightarrow> implementation outcome" where
  "execute s r =
     (if running s \<and> 0 < scheduled s \<and> worker s = Idle
      then read_file (s\<lparr>scheduled := scheduled s - 1\<rparr>) r
      else Ok s)"

fun run :: "implementation \<Rightarrow> (int \<times> AVPacket) list \<Rightarrow> implementation outcome" where
  "run s [] = Ok s"
| "run s (r # rs) = obind (execute s r) (\<lambda>s1. run s1 rs)"

definition ok_state :: "'a outcome \<Rightarrow> 'a option" where
  "ok_state m = (case m of Ok x \<Rightarrow> Some x | Throw e s \<Rightarrow> None | Undefined \<Rightarrow> None)"

subsection \<open>The number of decimal digits\<close>

text \<open>
  The specification writes the corrected numerator with \<^verbatim>\<open>digits(denominator)\<close>, the
  number of decimal digits; this definition follows those words, and is compared with
  what \<^verbatim>\<open>fix_time_base\<close> writes.
\<close>

function digits :: "nat \<Rightarrow> nat" where
  "digits n = (if n < 10 then 1 else Suc (digits (n div 10)))"
  by pat_completeness auto
termination
  by (relation "measure (\<lambda>n. n)") auto

declare digits.simps [simp del]

subsection \<open>Sample files and packets\<close>

text \<open>
  A file with one video stream of time base 1/25000; a file with a video stream of time
  base 1001/30000 and an audio stream; a video packet of one byte on stream 0. The
  constructor asks for the logarithm of a video denominator whose numerator is 1 only:
  of 25000 for the first file, and of none for the second. 25000 is exact in \<^verbatim>\<open>float\<close>
  and its logarithm 4.39... is far from an integer, so the answer there is 4, as the
  exact integer part that both samples return.
\<close>

definition video_only_file :: AVFormatContext where
  "video_only_file =
     \<lparr>av_open_input_file_ret = 0, context_null = False, av_find_stream_info_ret = 0,
      streams = [Some \<lparr>codec_type = CODEC_TYPE_VIDEO, index = 0, has_decoder = True,
                       avcodec_open_ret = 0,
                       codec = \<lparr>time_base_num = 1, time_base_den = 25000, frame_number = 0\<rparr>\<rparr>],
      av_seek_frame_ret = (\<lambda>_ _ _. 0),
      float_log10 = (\<lambda>d. int (ilog10 (nat d)))\<rparr>"

definition ntsc_file :: AVFormatContext where
  "ntsc_file =
     \<lparr>av_open_input_file_ret = 0, context_null = False, av_find_stream_info_ret = 0,
      streams = [Some \<lparr>codec_type = CODEC_TYPE_VIDEO, index = 0, has_decoder = True,
                       avcodec_open_ret = 0,
                       codec = \<lparr>time_base_num = 1001, time_base_den = 30000, frame_number = 0\<rparr>\<rparr>,
                 Some \<lparr>codec_type = CODEC_TYPE_AUDIO, index = 1, has_decoder = True,
                       avcodec_open_ret = 0,
                       codec = \<lparr>time_base_num = 1, time_base_den = 48000, frame_number = 0\<rparr>\<rparr>],
      av_seek_frame_ret = (\<lambda>_ _ _. 0),
      float_log10 = (\<lambda>d. int (ilog10 (nat d)))\<rparr>"

definition video_packet :: AVPacket where
  "video_packet = \<lparr>packet_data = [1], stream_index = 0\<rparr>"

text \<open>
  The frame counter of the default codec context belongs to the decoder, which shares the
  context with this object; \<^verbatim>\<open>decoded n\<close> is the decoder having counted \<^verbatim>\<open>n\<close> frames.
\<close>

definition decoded :: "int \<Rightarrow> implementation \<Rightarrow> implementation" where
  "decoded n s =
     (case video_codec_context s of
        Some c \<Rightarrow> s\<lparr>video_codec_context := Some (c\<lparr>frame_number := n\<rparr>)\<rparr>
      | None \<Rightarrow> s\<lparr>audio_codex_context :=
                   map_option (\<lambda>c. c\<lparr>frame_number := n\<rparr>) (audio_codex_context s)\<rparr>)"

text \<open>Construction followed by worker iterations on the given results of \<^verbatim>\<open>av_read_frame\<close>.\<close>

definition construct_and_run ::
  "AVFormatContext \<Rightarrow> string \<Rightarrow> bool \<Rightarrow> int \<Rightarrow> int \<Rightarrow> (int \<times> AVPacket) list
     \<Rightarrow> implementation outcome" where
  "construct_and_run fc fname lp start_frame_arg end_frame_arg rs =
     obind (construct fc fname lp start_frame_arg end_frame_arg) (\<lambda>s. run s rs)"

text \<open>
  An object as construction from \<^verbatim>\<open>video_only_file\<close> with looping leaves it, with one
  video packet queued; and the same object with 26 flush markers in each queue, as 26
  loop restarts without a pop leave them.
\<close>

definition playing :: implementation where
  "playing =
     (init_members ''clip'' True 0 (- 1))
       \<lparr>format_context := Some video_only_file,
        video_codec_context :=
          Some \<lparr>time_base_num = 1000, time_base_den = 25000, frame_number = 0\<rparr>,
        video_s_index := 0,
        running := True,
        scheduled := 1,
        video_packet_buffer := \<lparr>items = [[1]], capacity = tbb_default_capacity\<rparr>\<rparr>"

definition saturated :: implementation where
  "saturated =
     playing
       \<lparr>video_packet_buffer := \<lparr>items = replicate 26 [], capacity = tbb_default_capacity\<rparr>,
        audio_packet_buffer := \<lparr>items = replicate 26 [], capacity = tbb_default_capacity\<rparr>\<rparr>"

section \<open>Basic facts\<close>

lemmas const_defs = PACKET_BUFFER_COUNT_def AVERROR_EOF_def AVERROR_IO_def AV_TIME_BASE_def
  AVSEEK_FLAG_BACKWARD_def AVSEEK_FLAG_FRAME_def

lemmas codec_type_defs = CODEC_TYPE_VIDEO_def CODEC_TYPE_AUDIO_def

lemmas step_defs = executor_start_def executor_stop_def executor_clear_def begin_invoke_def
  diag_def called_def notify_all_def stop_def update_input_buffer_def

lemmas state_defs = playing_def saturated_def init_members_def new_queue_def

lemmas eval_defs = construct_and_run_def construct_def init_members_def open_video_def
  open_audio_def fix_time_base_def obind_def pow10_int_def step_defs ok_state_def Let_def
  new_queue_def seek_frame_def get_default_context_def try_push_def tbb_default_capacity_def
  tdiv_def in_int32_def in_int64_def execute_def read_file_def read_file_try_def is_eof_def
  wait_condition_def size_q_def video_packet_def const_defs

subsection \<open>The queue\<close>

lemma items_try_push:
  "items (snd (try_push q x)) = (if size_q q < capacity q then items q @ [x] else items q)"
  by (simp add: try_push_def size_q_def)

lemma capacity_try_push: "capacity (snd (try_push q x)) = capacity q"
  by (simp add: try_push_def)

lemma push_all_replicate:
  assumes "size_q q \<le> capacity q"
  shows "push_all q xs =
     (replicate (min (length xs) (capacity q - size_q q)) True
        @ replicate (length xs - (capacity q - size_q q)) False,
      q\<lparr>items := items q @ take (capacity q - size_q q) xs\<rparr>)"
  using assms
proof (induction xs arbitrary: q)
  case Nil
  then show ?case by simp
next
  case (Cons x xs)
  show ?case
  proof (cases "size_q q < capacity q")
    case True
    let ?q1 = "q\<lparr>items := items q @ [x]\<rparr>"
    have step: "try_push q x = (True, ?q1)"
      using True by (simp add: try_push_def size_q_def)
    have le: "size_q ?q1 \<le> capacity ?q1"
      using True by (simp add: size_q_def)
    have room: "capacity q - size_q q = Suc (capacity ?q1 - size_q ?q1)"
      using True by (simp add: size_q_def)
    show ?thesis
      using Cons.IH [OF le] by (simp add: step room)
  next
    case False
    with Cons.prems have full: "capacity q - size_q q = 0" by simp
    have step: "try_push q x = (False, q)"
      using False by (simp add: try_push_def size_q_def)
    show ?thesis
      using Cons.IH [OF Cons.prems] by (simp add: step full)
  qed
qed

lemma fst_get_audio_packet: "fst (get_audio_packet s) = fst (try_pop (audio_packet_buffer s))"
  by (simp add: get_audio_packet_def get_packet_def split: prod.splits)

lemma fst_get_video_packet: "fst (get_video_packet s) = fst (try_pop (video_packet_buffer s))"
  by (simp add: get_video_packet_def get_packet_def split: prod.splits)

subsection \<open>Seeking\<close>

lemma seek_frame_OkD:
  assumes "seek_frame s frame flags = Ok s1"
  shows "\<exists>fc c. format_context s = Some fc \<and> get_default_context s = Some c
    \<and> time_base_den c \<noteq> 0 \<and> in_int32 (AV_TIME_BASE * time_base_num c)
    \<and> s1 = s\<lparr>calls := calls s @ [Av_seek_frame (- 1)
                  (frame * tdiv (AV_TIME_BASE * time_base_num c) (time_base_den c))
                  (flags OR AVSEEK_FLAG_FRAME)],
              video_packet_buffer := snd (try_push (video_packet_buffer s) []),
              audio_packet_buffer := snd (try_push (audio_packet_buffer s) [])\<rparr>"
  using assms
  by (auto simp: seek_frame_def called_def Let_def split: option.splits if_splits)

lemma seek_frame_ThrowD:
  assumes "seek_frame s frame flags = Throw e s1"
  shows "e = Invalid_operation \<and> (\<exists>c. s1 = s\<lparr>calls := calls s @ [c]\<rparr>)"
  using assms
  by (auto simp: seek_frame_def called_def Let_def split: option.splits if_splits)

lemma seek_frame_Ok:
  assumes "seek_frame s frame flags = Ok s1"
  shows "loop s1 = loop s" and "start_frame s1 = start_frame s" and "end_frame s1 = end_frame s"
    and "eof_count s1 = eof_count s" and "video_s_index s1 = video_s_index s"
    and "audio_s_index s1 = audio_s_index s"
    and "video_codec_context s1 = video_codec_context s"
    and "audio_codex_context s1 = audio_codex_context s"
    and "format_context s1 = format_context s" and "exception s1 = exception s"
    and "running s1 = running s" and "scheduled s1 = scheduled s" and "worker s1 = worker s"
    and "notified s1 = notified s" and "diagnostics s1 = diagnostics s"
    and "video_packet_buffer s1 = snd (try_push (video_packet_buffer s) [])"
    and "audio_packet_buffer s1 = snd (try_push (audio_packet_buffer s) [])"
  using seek_frame_OkD [OF assms] by auto

subsection \<open>One invocation of the read function\<close>

lemma is_eof_called [simp]: "is_eof (called c s) errn = is_eof s errn"
  by (simp add: is_eof_def called_def get_default_context_def split: option.splits)

lemma called_fields [simp]:
  "loop (called c s) = loop s"
  "start_frame (called c s) = start_frame s"
  "video_s_index (called c s) = video_s_index s"
  "audio_s_index (called c s) = audio_s_index s"
  "video_packet_buffer (called c s) = video_packet_buffer s"
  "audio_packet_buffer (called c s) = audio_packet_buffer s"
  by (simp_all add: called_def)

lemma read_file_try_OkE [consumes 1, case_names Loop Stop Video Audio Other]:
  assumes "read_file_try s r = Ok s1"
  obtains
    (Loop) s2 where "is_eof s (fst r) = Some True" and "loop s"
      and "seek_frame (called Av_read_frame s) (start_frame s) AVSEEK_FLAG_BACKWARD = Ok s2"
      and "s1 = update_input_buffer (diag (Add_tag ''seek'')
                  (s2\<lparr>eof_count := eof_count s2 + (end_frame s2 - start_frame s2)\<rparr>))"
  | (Stop) "is_eof s (fst r) = Some True" and "\<not> loop s"
      and "s1 = update_input_buffer (stop (called Av_read_frame s))"
  | (Video) "is_eof s (fst r) = Some False" and "0 \<le> fst r"
      and "stream_index (snd r) = video_s_index s"
      and "s1 = update_input_buffer ((called Av_read_frame s)\<lparr>video_packet_buffer :=
                  snd (try_push (video_packet_buffer s) (packet_data (snd r)))\<rparr>)"
  | (Audio) "is_eof s (fst r) = Some False" and "0 \<le> fst r"
      and "stream_index (snd r) \<noteq> video_s_index s"
      and "stream_index (snd r) = audio_s_index s"
      and "s1 = update_input_buffer ((called Av_read_frame s)\<lparr>audio_packet_buffer :=
                  snd (try_push (audio_packet_buffer s) (packet_data (snd r)))\<rparr>)"
  | (Other) "is_eof s (fst r) = Some False" and "0 \<le> fst r"
      and "stream_index (snd r) \<noteq> video_s_index s"
      and "stream_index (snd r) \<noteq> audio_s_index s"
      and "s1 = update_input_buffer (called Av_read_frame s)"
  using assms
  by (auto simp: read_file_try_def Let_def obind_def
      split: option.splits bool.splits if_splits outcome.splits)

lemma read_file_try_ThrowE [consumes 1, case_names Seek Read]:
  assumes "read_file_try s r = Throw e s1"
  obtains
    (Seek) "is_eof s (fst r) = Some True" and "loop s"
      and "seek_frame (called Av_read_frame s) (start_frame s) AVSEEK_FLAG_BACKWARD = Throw e s1"
  | (Read) "is_eof s (fst r) = Some False" and "fst r < 0" and "e = Invalid_operation"
      and "s1 = called Av_read_frame s"
  using assms
  by (auto simp: read_file_try_def Let_def obind_def
      split: option.splits bool.splits if_splits outcome.splits)

lemma read_file_OkE [consumes 1, case_names Returned Caught]:
  assumes "read_file s r = Ok s'"
  obtains
    (Returned) s1 where "read_file_try s r = Ok s1"
      and "s' = (begin_invoke s1)\<lparr>worker :=
                  (if wait_condition (begin_invoke s1) then Blocked else Idle)\<rparr>"
  | (Caught) e s1 where "read_file_try s r = Throw e s1"
      and "s' = (diag (Log_exception e) (stop s1))\<lparr>worker := Idle\<rparr>"
  using assms unfolding read_file_def Let_def
  by (auto split: outcome.splits)

text \<open>What one invocation does to the queues, and what it leaves alone.\<close>

lemma read_file_queues:
  assumes "read_file s r = Ok s'"
  shows "loop s' = loop s \<and> audio_s_index s' = audio_s_index s
    \<and> video_s_index s' = video_s_index s
    \<and> audio_codex_context s' = audio_codex_context s
    \<and> ((video_packet_buffer s' = video_packet_buffer s
          \<and> audio_packet_buffer s' = audio_packet_buffer s)
       \<or> (loop s \<and> video_packet_buffer s' = snd (try_push (video_packet_buffer s) [])
          \<and> audio_packet_buffer s' = snd (try_push (audio_packet_buffer s) []))
       \<or> (stream_index (snd r) = video_s_index s
          \<and> video_packet_buffer s' = snd (try_push (video_packet_buffer s) (packet_data (snd r)))
          \<and> audio_packet_buffer s' = audio_packet_buffer s)
       \<or> (stream_index (snd r) = audio_s_index s
          \<and> video_packet_buffer s' = video_packet_buffer s
          \<and> audio_packet_buffer s' = snd (try_push (audio_packet_buffer s) (packet_data (snd r)))))"
  using assms
proof (cases rule: read_file_OkE)
  case (Returned s1)
  from Returned(1) show ?thesis
  proof (cases rule: read_file_try_OkE)
    case (Loop s2)
    from seek_frame_OkD [OF Loop(3)] Loop(2,4) Returned(2) show ?thesis
      by (auto simp: step_defs)
  next
    case Stop
    with Returned(2) show ?thesis by (simp add: step_defs)
  next
    case Video
    with Returned(2) show ?thesis by (simp add: step_defs)
  next
    case Audio
    with Returned(2) show ?thesis by (simp add: step_defs)
  next
    case Other
    with Returned(2) show ?thesis by (simp add: step_defs)
  qed
next
  case (Caught e s1)
  from Caught(1) show ?thesis
  proof (cases rule: read_file_try_ThrowE)
    case Seek
    from seek_frame_ThrowD [OF Seek(3)] Caught(2) show ?thesis
      by (auto simp: step_defs)
  next
    case Read
    with Caught(2) show ?thesis by (simp add: step_defs)
  qed
qed

lemma execute_queues:
  assumes "execute s r = Ok s'"
  shows "loop s' = loop s \<and> audio_s_index s' = audio_s_index s
    \<and> video_s_index s' = video_s_index s
    \<and> audio_codex_context s' = audio_codex_context s
    \<and> ((video_packet_buffer s' = video_packet_buffer s
          \<and> audio_packet_buffer s' = audio_packet_buffer s)
       \<or> (loop s \<and> video_packet_buffer s' = snd (try_push (video_packet_buffer s) [])
          \<and> audio_packet_buffer s' = snd (try_push (audio_packet_buffer s) []))
       \<or> (stream_index (snd r) = video_s_index s
          \<and> video_packet_buffer s' = snd (try_push (video_packet_buffer s) (packet_data (snd r)))
          \<and> audio_packet_buffer s' = audio_packet_buffer s)
       \<or> (stream_index (snd r) = audio_s_index s
          \<and> video_packet_buffer s' = video_packet_buffer s
          \<and> audio_packet_buffer s' = snd (try_push (audio_packet_buffer s) (packet_data (snd r)))))"
proof (cases "running s \<and> 0 < scheduled s \<and> worker s = Idle")
  case True
  with assms have "read_file (s\<lparr>scheduled := scheduled s - 1\<rparr>) r = Ok s'"
    by (simp add: execute_def)
  from read_file_queues [OF this] show ?thesis by simp
next
  case False
  with assms have "s' = s" by (auto simp: execute_def)
  then show ?thesis by simp
qed

lemma run_ConsD:
  assumes "run s (r # rs) = Ok s'"
  shows "\<exists>s1. execute s r = Ok s1 \<and> run s1 rs = Ok s'"
  using assms by (simp add: obind_def split: outcome.splits)

lemma run_items_grow:
  assumes "run s rs = Ok s'"
  shows "\<exists>lv la. items (video_packet_buffer s') = items (video_packet_buffer s) @ lv
    \<and> items (audio_packet_buffer s') = items (audio_packet_buffer s) @ la"
  using assms
proof (induction rs arbitrary: s)
  case Nil
  then show ?case by simp
next
  case (Cons r rs)
  from run_ConsD [OF Cons.prems] obtain s1
    where e: "execute s r = Ok s1" and r: "run s1 rs = Ok s'" by blast
  from Cons.IH [OF r] obtain lv la
    where l: "items (video_packet_buffer s') = items (video_packet_buffer s1) @ lv"
      "items (audio_packet_buffer s') = items (audio_packet_buffer s1) @ la" by blast
  from execute_queues [OF e]
  have "\<exists>kv ka. items (video_packet_buffer s1) = items (video_packet_buffer s) @ kv
      \<and> items (audio_packet_buffer s1) = items (audio_packet_buffer s) @ ka"
    by (auto simp: items_try_push)
  with l show ?case by auto
qed

lemma run_audio_markers:
  assumes "audio_s_index s = - 1" and "\<forall>r\<in>set rs. 0 \<le> stream_index (snd r)"
    and "run s rs = Ok s'"
  shows "audio_s_index s' = - 1 \<and> loop s' = loop s
    \<and> audio_codex_context s' = audio_codex_context s
    \<and> set (items (audio_packet_buffer s')) \<subseteq> set (items (audio_packet_buffer s)) \<union> {[]}
    \<and> (\<not> loop s \<longrightarrow> audio_packet_buffer s' = audio_packet_buffer s)"
  using assms
proof (induction rs arbitrary: s)
  case Nil
  then show ?case by auto
next
  case (Cons r rs)
  from run_ConsD [OF Cons.prems(3)] obtain s1
    where e: "execute s r = Ok s1" and r: "run s1 rs = Ok s'" by blast
  have idx: "stream_index (snd r) \<noteq> audio_s_index s"
    using Cons.prems(1,2) by auto
  from execute_queues [OF e] idx Cons.prems(1)
  have s1: "audio_s_index s1 = - 1" "loop s1 = loop s"
    "audio_codex_context s1 = audio_codex_context s"
    "set (items (audio_packet_buffer s1)) \<subseteq> set (items (audio_packet_buffer s)) \<union> {[]}"
    "\<not> loop s \<longrightarrow> audio_packet_buffer s1 = audio_packet_buffer s"
    by (auto simp: items_try_push split: if_splits)
  from Cons.prems(2) have rest: "\<forall>r\<in>set rs. 0 \<le> stream_index (snd r)" by simp
  from Cons.IH [OF s1(1) rest r] s1 show ?case by auto
qed

subsection \<open>Construction\<close>

lemma construct_OkE:
  assumes "construct fc fname lp sf ef = Ok s"
  obtains s3 s4 s5 s6 where "\<not> (0 < ef \<and> ef \<le> max sf 0)"
    and "0 \<le> av_open_input_file_ret fc" and "\<not> context_null fc"
    and "0 \<le> av_find_stream_info_ret fc"
    and "s3 = called Av_find_stream_info
           ((called Av_open_input_file
              (diag (Set_color ''seek'') (diag (Set_color ''input-buffer'')
                 (init_members fname lp sf ef))))\<lparr>format_context := Some fc\<rparr>)"
    and "open_video fc s3 = Ok s4"
    and "open_audio fc s4 = Ok s5"
    and "video_codec_context s5 \<noteq> None \<or> audio_codex_context s5 \<noteq> None"
    and "(if start_frame s5 \<noteq> 0 then seek_frame s5 (start_frame s5) 0 else Ok s5) = Ok s6"
    and "s = diag (Log_info '' Started.'') (begin_invoke (executor_start s6))"
  using assms unfolding construct_def Let_def obind_def
  by (simp add: init_members_def split: if_splits outcome.splits)

lemma open_video_Ok:
  assumes "open_video fc s = Ok s1"
  shows "loop s1 = loop s" and "start_frame s1 = start_frame s" and "end_frame s1 = end_frame s"
    and "eof_count s1 = eof_count s" and "audio_s_index s1 = audio_s_index s"
    and "audio_codex_context s1 = audio_codex_context s"
    and "video_packet_buffer s1 = video_packet_buffer s"
    and "audio_packet_buffer s1 = audio_packet_buffer s"
    and "format_context s1 = format_context s" and "exception s1 = exception s"
    and "case open_stream fc CODEC_TYPE_VIDEO of
           None \<Rightarrow> video_codec_context s1 = video_codec_context s
             \<and> video_s_index s1 = video_s_index s
         | Some (c, i) \<Rightarrow> fix_time_base (float_log10 fc) (Some c) = Ok (video_codec_context s1)
             \<and> video_s_index s1 = i"
  using assms unfolding open_video_def obind_def diag_def
  by (auto split: option.splits outcome.splits)

lemma open_audio_Ok:
  assumes "open_audio fc s = Ok s1"
  shows "loop s1 = loop s" and "start_frame s1 = start_frame s" and "end_frame s1 = end_frame s"
    and "eof_count s1 = eof_count s" and "video_s_index s1 = video_s_index s"
    and "video_packet_buffer s1 = video_packet_buffer s"
    and "audio_packet_buffer s1 = audio_packet_buffer s"
    and "format_context s1 = format_context s" and "exception s1 = exception s"
    and "case open_stream fc CODEC_TYPE_AUDIO of
           None \<Rightarrow> video_codec_context s1 = video_codec_context s
             \<and> audio_codex_context s1 = audio_codex_context s
             \<and> audio_s_index s1 = audio_s_index s
         | Some (c, i) \<Rightarrow>
             fix_time_base (float_log10 fc) (video_codec_context s) = Ok (video_codec_context s1)
             \<and> audio_codex_context s1 = Some c \<and> audio_s_index s1 = i"
  using assms unfolding open_audio_def obind_def diag_def
  by (auto split: option.splits outcome.splits)

lemma construct_video_only_succeeds:
  assumes "open_stream fc CODEC_TYPE_VIDEO = Some (c, i)"
    and "open_stream fc CODEC_TYPE_AUDIO = None"
    and "0 \<le> av_open_input_file_ret fc" and "\<not> context_null fc"
    and "0 \<le> av_find_stream_info_ret fc"
    and "\<not> (0 < ef \<and> ef \<le> max sf 0)"
    and "time_base_num c = 1 \<longrightarrow> 0 < time_base_den c"
    and "sf \<le> 0"
  shows "ok_state (construct fc fname lp sf ef) \<noteq> None"
  using assms
  by (auto simp: construct_def init_members_def open_video_def open_audio_def fix_time_base_def
      obind_def Let_def step_defs ok_state_def)

subsection \<open>The time-base correction\<close>

lemma digits_ilog10: "digits n = Suc (ilog10 n)"
proof (induction n rule: ilog10.induct)
  case (1 n)
  then show ?case
    by (subst digits.simps, subst ilog10.simps) simp
qed

lemma pow10_int_digits:
  assumes "e = int (digits n) - 1"
  shows "pow10_int (e - 1) = (if digits n < 2 then 0 else 10 ^ (digits n - 2))"
  using assms by (auto simp: pow10_int_def nat_diff_distrib)

lemma fix_time_base_SomeD:
  assumes "fix_time_base lg (Some c) = Ok v"
  shows "v = Some (if time_base_num c = 1
                   then c\<lparr>time_base_num := pow10_int (lg (time_base_den c) - 1)\<rparr>
                   else c)"
  using assms
  by (auto simp: fix_time_base_def split: if_splits)

lemma fix_time_base_twice:
  assumes "fix_time_base lg (Some c) = Ok v" and "fix_time_base lg v = Ok w"
  shows "w = v"
  using assms
  by (auto simp: fix_time_base_def split: if_splits)

subsection \<open>The sample files\<close>

lemma video_only_file_simps:
  "av_open_input_file_ret video_only_file = 0"
  "context_null video_only_file = False"
  "av_find_stream_info_ret video_only_file = 0"
  "av_seek_frame_ret video_only_file a b c = 0"
  "open_stream video_only_file CODEC_TYPE_VIDEO =
     Some (\<lparr>time_base_num = 1, time_base_den = 25000, frame_number = 0\<rparr>, 0)"
  "open_stream video_only_file CODEC_TYPE_AUDIO = None"
  "float_log10 video_only_file d = int (ilog10 (nat d))"
  by (simp_all add: open_stream_def video_only_file_def codec_type_defs)

lemma ntsc_file_simps:
  "av_open_input_file_ret ntsc_file = 0"
  "context_null ntsc_file = False"
  "av_find_stream_info_ret ntsc_file = 0"
  "av_seek_frame_ret ntsc_file a b c = 0"
  "open_stream ntsc_file CODEC_TYPE_VIDEO =
     Some (\<lparr>time_base_num = 1001, time_base_den = 30000, frame_number = 0\<rparr>, 0)"
  "open_stream ntsc_file CODEC_TYPE_AUDIO =
     Some (\<lparr>time_base_num = 1, time_base_den = 48000, frame_number = 0\<rparr>, 1)"
  "float_log10 ntsc_file d = int (ilog10 (nat d))"
  by (simp_all add: open_stream_def ntsc_file_def codec_type_defs)

lemma ilog10_25000: "ilog10 25000 = 4"
  by (simp add: ilog10.simps)

lemma digits_25000: "digits 25000 = 5"
  by (simp add: digits_ilog10 ilog10_25000)

lemma replicate_26: "replicate 26 x = [x,x,x,x,x,x,x,x,x,x,x,x,x,x,x,x,x,x,x,x,x,x,x,x,x,x]"
  by (simp add: numeral_eq_Suc)

section \<open>The claims\<close>

subsection \<open>C1: the capacity of the packet queues\<close>

text \<open>
  Claim C1 says that a packet queue never holds more than 25 items and that
  \<^verbatim>\<open>try_push\<close> answers false once it holds 25. The source declares
  \<^verbatim>\<open>PACKET_BUFFER_COUNT = 25\<close> but never gives it to the queues: they keep the library's
  default capacity. After construction from a file with one video stream, 26 successful
  reads of a video packet and no pop, the video queue holds 26 items.
\<close>

theorem queue_capacity_counterexample:
  "map_option (size_q \<circ> video_packet_buffer)
     (ok_state (construct_and_run video_only_file ''clip'' False 0 (- 1)
        (replicate 26 (0, video_packet)))) = Some 26"
  by (simp add: replicate_26 eval_defs video_only_file_simps ilog10_25000)

text \<open>
  Claim C1 as amended: for every sequence of \<^verbatim>\<open>try_push\<close> operations on a queue that
  holds no more than its capacity, the queue ends with the smaller of its capacity and
  what was offered, the pushes that find room answer true and all later ones answer
  false, and a further \<^verbatim>\<open>try_push\<close> answers false exactly when the queue is at its
  capacity. The capacity of a packet queue of the object is the library's default, which
  is larger than \<^verbatim>\<open>PACKET_BUFFER_COUNT\<close>.
\<close>

theorem try_push_bounded_by_capacity:
  assumes "size_q q \<le> capacity q" and "push_all q xs = (bs, q1)"
  shows "size_q q1 = min (capacity q) (size_q q + length xs)
    \<and> capacity q1 = capacity q
    \<and> bs = replicate (min (length xs) (capacity q - size_q q)) True
            @ replicate (length xs - (capacity q - size_q q)) False
    \<and> fst (try_push q1 x) = (size_q q1 < capacity q1)
    \<and> capacity new_queue = tbb_default_capacity
    \<and> PACKET_BUFFER_COUNT < tbb_default_capacity"
  using assms push_all_replicate [OF assms(1), of xs]
  by (auto simp: size_q_def try_push_def new_queue_def PACKET_BUFFER_COUNT_def
      tbb_default_capacity_def)

text \<open>
  Witness for C1 as amended: three pushes on an empty queue of capacity 2; the third
  answers false and the queue holds two items.
\<close>

theorem try_push_bounded_by_capacity_witness:
  "push_all \<lparr>items = [], capacity = 2\<rparr> [[1], [2], [3]] =
     ([True, True, False], \<lparr>items = [[1], [2]], capacity = 2\<rparr>)
   \<and> size_q \<lparr>items = [[1], [2]], capacity = 2\<rparr> = 2
   \<and> fst (try_push \<lparr>items = [[1], [2]], capacity = 2\<rparr> [4]) = False"
proof -
  have p: "push_all \<lparr>items = [], capacity = 2\<rparr> [[1], [2], [3]] =
     ([True, True, False], \<lparr>items = [[1], [2]], capacity = 2\<rparr>)"
    by (simp add: try_push_def)
  have q: "size_q \<lparr>items = [], capacity = 2\<rparr> \<le> capacity \<lparr>items = [], capacity = 2\<rparr>"
    by (simp add: size_q_def)
  from try_push_bounded_by_capacity [OF q p, of "[4]"] p show ?thesis
    by simp
qed

subsection \<open>C2: backpressure\<close>

text \<open>
  Claim C2 says that the worker waits if and only if it is still running and both
  queues hold more than 25 items, that every pop wakes it, and that it does not wait
  with only one queue above 25. \<^verbatim>\<open>get_packet\<close> calls \<^verbatim>\<open>notify_all\<close> before \<^verbatim>\<open>try_pop\<close> and
  holds no mutex. With 26 items in each queue and the worker waiting, a call of
  \<^verbatim>\<open>get_audio_packet\<close> in which the woken worker evaluates the loop condition between
  the two statements leaves the worker waiting, the executor running, 25 items in the
  audio queue and 26 in the video queue. (A notification that arrives after the worker
  evaluated the condition and before it waits is lost and ends in the same state.)
\<close>

theorem backpressure_counterexample:
  "worker (snd (get_audio_packet_interleaved wake (saturated\<lparr>worker := Blocked\<rparr>))) = Blocked
   \<and> running (snd (get_audio_packet_interleaved wake (saturated\<lparr>worker := Blocked\<rparr>)))
   \<and> size_q (audio_packet_buffer
         (snd (get_audio_packet_interleaved wake (saturated\<lparr>worker := Blocked\<rparr>)))) = 25
   \<and> size_q (video_packet_buffer
         (snd (get_audio_packet_interleaved wake (saturated\<lparr>worker := Blocked\<rparr>)))) = 26
   \<and> \<not> wait_condition (snd (get_audio_packet_interleaved wake (saturated\<lparr>worker := Blocked\<rparr>)))"
  by (simp add: get_audio_packet_interleaved_def Let_def wake_def notify_all_def
      wait_condition_def size_q_def try_pop_def state_defs PACKET_BUFFER_COUNT_def
      replicate_26)

text \<open>
  Claim C2 as amended. After an invocation of \<^verbatim>\<open>read_file\<close> the worker sits in
  \<^verbatim>\<open>cond_.wait\<close> if and only if, at that test, the executor is running and the audio queue
  and the video queue both hold more than 25 items. For a waiting worker:
  \<^verbatim>\<open>get_video_packet\<close>, \<^verbatim>\<open>get_audio_packet\<close> and the destructor each wake it; woken by the
  destructor it leaves the wait; woken by a pop and evaluating the loop condition after
  the pop, it goes back to waiting exactly when the executor runs and both queues still
  hold more than 25 items after the pop, and leaves the wait otherwise; but evaluating
  the condition between the notification and the pop, it decides on the sizes before the
  pop, and so can go on waiting with only one queue above 25 until the next notification.
\<close>

theorem backpressure_wait:
  assumes "read_file s r = Ok s1" and "worker t = Blocked"
  shows "(worker s1 = Blocked) =
           (running s1 \<and> 25 < size_q (audio_packet_buffer s1)
              \<and> 25 < size_q (video_packet_buffer s1))
    \<and> worker s1 \<noteq> Woken
    \<and> worker (snd (get_video_packet t)) = Woken
    \<and> worker (snd (get_audio_packet t)) = Woken
    \<and> worker (destroy t) = Woken
    \<and> worker (wake (destroy t)) = Idle
    \<and> worker (wake (snd (get_video_packet t))) =
         (if running t \<and> 25 < size_q (audio_packet_buffer t)
               \<and> 26 < size_q (video_packet_buffer t)
          then Blocked else Idle)
    \<and> worker (wake (snd (get_audio_packet t))) =
         (if running t \<and> 26 < size_q (audio_packet_buffer t)
               \<and> 25 < size_q (video_packet_buffer t)
          then Blocked else Idle)
    \<and> worker (snd (get_video_packet_interleaved wake t)) =
         (if running t \<and> 25 < size_q (audio_packet_buffer t)
               \<and> 25 < size_q (video_packet_buffer t)
          then Blocked else Idle)
    \<and> worker (snd (get_audio_packet_interleaved wake t)) =
         (if running t \<and> 25 < size_q (audio_packet_buffer t)
               \<and> 25 < size_q (video_packet_buffer t)
          then Blocked else Idle)"
proof -
  have a: "(worker s1 = Blocked) =
           (running s1 \<and> 25 < size_q (audio_packet_buffer s1)
              \<and> 25 < size_q (video_packet_buffer s1)) \<and> worker s1 \<noteq> Woken"
    using assms(1)
  proof (cases rule: read_file_OkE)
    case (Returned s2)
    then show ?thesis
      by (simp add: wait_condition_def begin_invoke_def PACKET_BUFFER_COUNT_def)
  next
    case (Caught e s2)
    then show ?thesis
      by (simp add: step_defs)
  qed
  have v: "snd (get_video_packet t) =
      (notify_all t)\<lparr>video_packet_buffer := snd (try_pop (video_packet_buffer t))\<rparr>"
    by (simp add: get_video_packet_def get_packet_def split: prod.splits)
  have u: "snd (get_audio_packet t) =
      (notify_all t)\<lparr>audio_packet_buffer := snd (try_pop (audio_packet_buffer t))\<rparr>"
    by (simp add: get_audio_packet_def get_packet_def split: prod.splits)
  have pop: "size_q (snd (try_pop q)) = size_q q - 1" for q
    by (simp add: try_pop_def size_q_def split: list.splits)
  have b: "worker (snd (get_video_packet t)) = Woken" "worker (snd (get_audio_packet t)) = Woken"
    using assms(2) by (simp_all add: v u notify_all_def)
  have d: "worker (destroy t) = Woken" "worker (wake (destroy t)) = Idle"
    using assms(2) by (simp_all add: destroy_def step_defs wake_def wait_condition_def)
  have e: "worker (wake (snd (get_video_packet t))) =
         (if running t \<and> 25 < size_q (audio_packet_buffer t)
               \<and> 26 < size_q (video_packet_buffer t)
          then Blocked else Idle)"
    using assms(2)
    by (auto simp: v wake_def wait_condition_def notify_all_def pop PACKET_BUFFER_COUNT_def)
  have f: "worker (wake (snd (get_audio_packet t))) =
         (if running t \<and> 26 < size_q (audio_packet_buffer t)
               \<and> 25 < size_q (video_packet_buffer t)
          then Blocked else Idle)"
    using assms(2)
    by (auto simp: u wake_def wait_condition_def notify_all_def pop PACKET_BUFFER_COUNT_def)
  have g: "worker (snd (get_video_packet_interleaved wake t)) =
         (if running t \<and> 25 < size_q (audio_packet_buffer t)
               \<and> 25 < size_q (video_packet_buffer t)
          then Blocked else Idle)"
    using assms(2)
    by (auto simp: get_video_packet_interleaved_def Let_def wake_def wait_condition_def
        notify_all_def PACKET_BUFFER_COUNT_def)
  have h: "worker (snd (get_audio_packet_interleaved wake t)) =
         (if running t \<and> 25 < size_q (audio_packet_buffer t)
               \<and> 25 < size_q (video_packet_buffer t)
          then Blocked else Idle)"
    using assms(2)
    by (auto simp: get_audio_packet_interleaved_def Let_def wake_def wait_condition_def
        notify_all_def PACKET_BUFFER_COUNT_def)
  from a b d e f g h show ?thesis by simp
qed

text \<open>
  Witness for C2 as amended: with 26 items in each queue, reading one more video packet
  leaves the worker waiting; from the waiting worker with 26 items in each queue, a pop
  of the video queue followed by the evaluation of the loop condition releases it, and
  so does the destructor.
\<close>

theorem backpressure_wait_witness:
  "map_option worker (ok_state (read_file saturated (0, video_packet))) = Some Blocked
   \<and> worker (wake (snd (get_video_packet (saturated\<lparr>worker := Blocked\<rparr>)))) = Idle
   \<and> worker (wake (destroy (saturated\<lparr>worker := Blocked\<rparr>))) = Idle"
proof -
  obtain s1 where h: "read_file saturated (0, video_packet) = Ok s1"
    by (simp add: read_file_def read_file_try_def is_eof_def obind_def Let_def state_defs
        step_defs video_packet_def const_defs)
  have "running s1" "size_q (audio_packet_buffer s1) = 26" "size_q (video_packet_buffer s1) = 27"
    using h
    by (auto simp: read_file_def read_file_try_def is_eof_def obind_def Let_def state_defs
        step_defs video_packet_def try_push_def tbb_default_capacity_def size_q_def const_defs
        wait_condition_def)
  moreover have "worker (saturated\<lparr>worker := Blocked\<rparr>) = Blocked"
    by simp
  moreover have "size_q (video_packet_buffer (saturated\<lparr>worker := Blocked\<rparr>)) = 26"
    by (simp add: state_defs size_q_def)
  ultimately show ?thesis
    using backpressure_wait [OF h, of "saturated\<lparr>worker := Blocked\<rparr>"] h
    by (simp add: ok_state_def)
qed

subsection \<open>C3: end of stream\<close>

text \<open>
  Claim C3 says that a read is treated as end of stream when the library signals the end
  of the file, also when an end frame is configured. With an end frame configured
  \<^verbatim>\<open>is_eof\<close> looks at the frame counter only: with end frame 10 and no frame decoded, the
  library's \<^verbatim>\<open>AVERROR_EOF\<close> is not end of stream, and the read is handled as a failed read,
  with the exception in the log.
\<close>

theorem is_eof_window_counterexample:
  "is_eof (playing\<lparr>end_frame := 10, eof_count := 10\<rparr>) AVERROR_EOF = Some False
   \<and> map_option diagnostics (ok_state (construct_and_run video_only_file ''clip'' False 0 10
        [(AVERROR_EOF, video_packet)])) =
     Some [Set_color ''input-buffer'', Set_color ''seek'',
           Log_warning '' Could not open any audio stream.'', Log_info '' Started.'',
           Log_info '' eof'', Log_exception Invalid_operation]"
  by (simp add: eval_defs state_defs video_only_file_simps ilog10_25000)

text \<open>
  Claim C3 as amended: with a default codec context, a read is end of stream exactly when
  either an end frame is configured (\<^verbatim>\<open>end_frame\<close> is not -1) and the frame counter of the
  default context is greater than \<^verbatim>\<open>eof_count\<close>, or no end frame is configured and the
  read returned \<^verbatim>\<open>AVERROR_EOF\<close> or \<^verbatim>\<open>AVERROR_IO\<close>. At end of stream the try block seeks back
  to the start frame when looping and stops otherwise; a negative return value that is
  not end of stream throws.
\<close>

theorem is_eof_window_or_library:
  assumes "get_default_context s = Some c"
  shows "is_eof s errn =
      Some ((end_frame s \<noteq> - 1 \<and> eof_count s < frame_number c)
         \<or> (end_frame s = - 1 \<and> (errn = AVERROR_EOF \<or> errn = AVERROR_IO)))
    \<and> (is_eof s errn = Some True \<and> loop s \<longrightarrow>
          read_file_try s (errn, pkt) =
            obind (seek_frame (called Av_read_frame s) (start_frame s) AVSEEK_FLAG_BACKWARD)
              (\<lambda>s1. Ok (update_input_buffer (diag (Add_tag ''seek'')
                 (s1\<lparr>eof_count := eof_count s1 + (end_frame s1 - start_frame s1)\<rparr>)))))
    \<and> (is_eof s errn = Some True \<and> \<not> loop s \<longrightarrow>
          read_file_try s (errn, pkt) = Ok (update_input_buffer (stop (called Av_read_frame s))))
    \<and> (is_eof s errn = Some False \<and> errn < 0 \<longrightarrow>
          read_file_try s (errn, pkt) = Throw Invalid_operation (called Av_read_frame s))"
proof -
  have a: "is_eof s errn =
      Some ((end_frame s \<noteq> - 1 \<and> eof_count s < frame_number c)
         \<or> (end_frame s = - 1 \<and> (errn = AVERROR_EOF \<or> errn = AVERROR_IO)))"
    using assms by (simp add: is_eof_def)
  have b: "is_eof s errn = Some True \<and> loop s \<longrightarrow>
          read_file_try s (errn, pkt) =
            obind (seek_frame (called Av_read_frame s) (start_frame s) AVSEEK_FLAG_BACKWARD)
              (\<lambda>s1. Ok (update_input_buffer (diag (Add_tag ''seek'')
                 (s1\<lparr>eof_count := eof_count s1 + (end_frame s1 - start_frame s1)\<rparr>))))"
    by (auto simp: read_file_try_def Let_def obind_def split: outcome.splits)
  have c: "is_eof s errn = Some True \<and> \<not> loop s \<longrightarrow>
          read_file_try s (errn, pkt) = Ok (update_input_buffer (stop (called Av_read_frame s)))"
    by (simp add: read_file_try_def Let_def obind_def)
  have d: "is_eof s errn = Some False \<and> errn < 0 \<longrightarrow>
          read_file_try s (errn, pkt) = Throw Invalid_operation (called Av_read_frame s)"
    by (simp add: read_file_try_def Let_def obind_def)
  from a b c d show ?thesis by blast
qed

text \<open>
  Witness for C3 as amended: without an end frame, \<^verbatim>\<open>AVERROR_EOF\<close> is end of stream and
  the object that does not loop stops; with end frame 10 and no frame decoded, the
  failed read -1 throws.
\<close>

theorem is_eof_window_or_library_witness:
  "is_eof (playing\<lparr>loop := False\<rparr>) AVERROR_EOF = Some True
   \<and> read_file_try (playing\<lparr>loop := False\<rparr>) (AVERROR_EOF, video_packet) =
       Ok (update_input_buffer (stop (called Av_read_frame (playing\<lparr>loop := False\<rparr>))))
   \<and> read_file_try (playing\<lparr>end_frame := 10, eof_count := 10\<rparr>) (- 1, video_packet) =
       Throw Invalid_operation (called Av_read_frame (playing\<lparr>end_frame := 10, eof_count := 10\<rparr>))"
proof -
  let ?c = "\<lparr>time_base_num = 1000, time_base_den = 25000, frame_number = 0\<rparr>"
  have c1: "get_default_context (playing\<lparr>loop := False\<rparr>) = Some ?c"
    by (simp add: get_default_context_def state_defs)
  have c2: "get_default_context (playing\<lparr>end_frame := 10, eof_count := 10\<rparr>) = Some ?c"
    by (simp add: get_default_context_def state_defs)
  from is_eof_window_or_library [OF c1, of AVERROR_EOF video_packet]
    is_eof_window_or_library [OF c2, of "- 1" video_packet]
  show ?thesis
    by (simp add: state_defs)
qed

subsection \<open>C4: a failed read\<close>

text \<open>
  Claim C4 says that a failed read is recorded and surfaced by the next call from
  outside. The handler stops the executor and logs the exception; the member
  \<^verbatim>\<open>exception_\<close> is never written and no member function reads it. After construction and
  one failed read (return value -1), \<^verbatim>\<open>exception_\<close> is empty, \<^verbatim>\<open>is_running\<close> answers false
  and \<^verbatim>\<open>get_video_packet\<close> returns an absent packet, as for an empty queue.
\<close>

theorem read_failure_counterexample:
  "map_option exception (ok_state (construct_and_run video_only_file ''clip'' False 0 (- 1)
        [(- 1, video_packet)])) = Some None
   \<and> map_option is_running (ok_state (construct_and_run video_only_file ''clip'' False 0 (- 1)
        [(- 1, video_packet)])) = Some False
   \<and> map_option (fst \<circ> get_video_packet) (ok_state (construct_and_run video_only_file ''clip''
        False 0 (- 1) [(- 1, video_packet)])) = Some None"
  by (simp add: eval_defs video_only_file_simps ilog10_25000 is_running_def
      fst_get_video_packet try_pop_def)

text \<open>
  Claim C4 as amended: when \<^verbatim>\<open>av_read_frame\<close> returns a negative value that is not end of
  stream, \<^verbatim>\<open>read_file\<close> returns with the executor stopped and the exception
  \<^verbatim>\<open>invalid_operation\<close> in the log; the worker runs no further invocation; \<^verbatim>\<open>exception_\<close> is
  as before; and \<^verbatim>\<open>get_video_packet\<close> and \<^verbatim>\<open>get_audio_packet\<close> return what a pop of the
  unchanged queues returns.
\<close>

theorem read_failure_stops_and_logs:
  assumes "is_eof s errn = Some False" and "errn < 0"
  shows "let s1 = (diag (Log_exception Invalid_operation) (stop (called Av_read_frame s)))
                    \<lparr>worker := Idle\<rparr>
     in read_file s (errn, pkt) = Ok s1
      \<and> \<not> is_running s1
      \<and> execute s1 r = Ok s1
      \<and> exception s1 = exception s
      \<and> diagnostics s1 = diagnostics s @ [Log_info '' eof'', Log_exception Invalid_operation]
      \<and> fst (get_video_packet s1) = fst (try_pop (video_packet_buffer s))
      \<and> fst (get_audio_packet s1) = fst (try_pop (audio_packet_buffer s))"
proof -
  have t: "read_file_try s (errn, pkt) = Throw Invalid_operation (called Av_read_frame s)"
    using assms by (simp add: read_file_try_def Let_def obind_def)
  show ?thesis
    by (simp add: Let_def read_file_def t is_running_def execute_def step_defs
        fst_get_video_packet fst_get_audio_packet)
qed

text \<open>
  Witness for C4 as amended: the object that does not loop, at a read that returns -1.
\<close>

theorem read_failure_stops_and_logs_witness:
  "map_option is_running (ok_state (read_file (playing\<lparr>loop := False\<rparr>) (- 1, video_packet)))
     = Some False
   \<and> map_option exception (ok_state (read_file (playing\<lparr>loop := False\<rparr>) (- 1, video_packet)))
     = Some None"
proof -
  have e: "is_eof (playing\<lparr>loop := False\<rparr>) (- 1) = Some False"
    by (simp add: is_eof_def state_defs const_defs)
  from read_failure_stops_and_logs [OF e, of video_packet "(0, video_packet)"] show ?thesis
    by (simp add: Let_def ok_state_def state_defs step_defs is_running_def)
qed

subsection \<open>C5: the flush markers\<close>

text \<open>
  Claim C5 says that after a successful seek the next item retrievable from each queue
  is a flush marker. \<^verbatim>\<open>seek_frame\<close> pushes the marker at the tail: after one video packet
  and a loop restart, \<^verbatim>\<open>get_video_packet\<close> returns the packet read before the seek, and
  the marker is behind it.
\<close>

theorem seek_flush_marker_counterexample:
  "map_option (fst \<circ> get_video_packet) (ok_state (construct_and_run video_only_file ''clip''
        True 0 (- 1) [(0, video_packet), (AVERROR_EOF, video_packet)])) = Some (Some [1])
   \<and> map_option (items \<circ> video_packet_buffer) (ok_state (construct_and_run video_only_file
        ''clip'' True 0 (- 1) [(0, video_packet), (AVERROR_EOF, video_packet)])) =
      Some [[1], []]"
  by (simp add: eval_defs video_only_file_simps ilog10_25000
      fst_get_video_packet try_pop_def)

text \<open>
  Claim C5 as amended: after a successful seek on queues that are not full, and after any
  number of further worker iterations without a pop, each queue holds what it held
  before the seek, then one zero-length flush marker, then what was pushed after the
  seek. The marker is the next retrievable item when the queue was empty at the seek.
\<close>

theorem seek_appends_flush_marker:
  assumes "seek_frame s frame flags = Ok s1"
    and "size_q (video_packet_buffer s) < capacity (video_packet_buffer s)"
    and "size_q (audio_packet_buffer s) < capacity (audio_packet_buffer s)"
    and "run s1 rs = Ok s2"
  shows "\<exists>lv la. items (video_packet_buffer s2) = items (video_packet_buffer s) @ [] # lv
    \<and> items (audio_packet_buffer s2) = items (audio_packet_buffer s) @ [] # la"
  using run_items_grow [OF assms(4)] seek_frame_Ok(16,17) [OF assms(1)] assms(2,3)
  by (simp add: items_try_push)

text \<open>
  Witness for C5 as amended: a seek with one video packet queued and the audio queue
  empty.
\<close>

theorem seek_appends_flush_marker_witness:
  "map_option (items \<circ> video_packet_buffer) (ok_state (seek_frame playing 0 0)) = Some [[1], []]
   \<and> map_option (items \<circ> audio_packet_buffer) (ok_state (seek_frame playing 0 0)) = Some [[]]"
proof -
  obtain s1 where h: "seek_frame playing 0 0 = Ok s1"
    by (simp add: seek_frame_def get_default_context_def state_defs video_only_file_simps
        in_int32_def in_int64_def tdiv_def Let_def const_defs)
  have r: "run s1 [] = Ok s1" by simp
  have v: "size_q (video_packet_buffer playing) < capacity (video_packet_buffer playing)"
    by (simp add: state_defs size_q_def tbb_default_capacity_def)
  have a: "size_q (audio_packet_buffer playing) < capacity (audio_packet_buffer playing)"
    by (simp add: state_defs size_q_def tbb_default_capacity_def)
  from seek_appends_flush_marker [OF h v a r] obtain lv la
    where l: "items (video_packet_buffer s1) = items (video_packet_buffer playing) @ [] # lv"
      "items (audio_packet_buffer s1) = items (audio_packet_buffer playing) @ [] # la"
    by blast
  from seek_frame_Ok(16,17) [OF h]
  have "length (items (video_packet_buffer s1)) = 2" "length (items (audio_packet_buffer s1)) = 1"
    by (simp_all add: items_try_push state_defs size_q_def tbb_default_capacity_def)
  with l have "lv = []" "la = []" by (simp_all add: state_defs)
  with l h show ?thesis by (simp add: ok_state_def state_defs)
qed

subsection \<open>C6: a file without an audio stream\<close>

text \<open>
  Claim C6 says that with a video stream only, \<^verbatim>\<open>get_audio_packet\<close> returns absent at every
  point, also after a seek. \<^verbatim>\<open>seek_frame\<close> pushes a flush marker on the audio queue
  whether or not there is an audio stream: after construction with start frame 5,
  \<^verbatim>\<open>get_audio_packet\<close> returns a zero-length buffer.
\<close>

theorem video_only_audio_counterexample:
  "map_option (fst \<circ> get_audio_packet)
     (ok_state (construct video_only_file ''clip'' False 5 (- 1))) = Some (Some [])"
  by (simp add: eval_defs video_only_file_simps ilog10_25000
      fst_get_audio_packet try_pop_def)

text \<open>
  Claim C6 as amended, for a file whose video stream opens and that has no audio stream
  to open. Construction with a start frame that is 0 or negative succeeds when the file
  opens, its stream information is found, the frame window is accepted and the
  time-base correction is defined. After a successful construction and any worker
  iterations on packets with stream indices from 0, the audio queue holds nothing but
  zero-length flush markers; and when moreover the start frame is 0 or negative and
  looping is off (so that no seek happens), \<^verbatim>\<open>get_audio_packet\<close> returns absent.
\<close>

theorem video_only_audio_packets:
  assumes "open_stream fc CODEC_TYPE_VIDEO = Some (c, i)"
    and "open_stream fc CODEC_TYPE_AUDIO = None"
  shows "(0 \<le> av_open_input_file_ret fc \<and> \<not> context_null fc
            \<and> 0 \<le> av_find_stream_info_ret fc \<and> \<not> (0 < ef \<and> ef \<le> max sf 0)
            \<and> (time_base_num c = 1 \<longrightarrow> 0 < time_base_den c) \<and> sf \<le> 0
          \<longrightarrow> ok_state (construct fc fname lp sf ef) \<noteq> None)
    \<and> (\<forall>s s1. construct fc fname lp sf ef = Ok s
            \<and> (\<forall>r\<in>set rs. 0 \<le> stream_index (snd r)) \<and> run s rs = Ok s1
          \<longrightarrow> set (items (audio_packet_buffer s1)) \<subseteq> {[]}
            \<and> (sf \<le> 0 \<and> \<not> lp \<longrightarrow> fst (get_audio_packet s1) = None))"
proof (intro conjI allI impI)
  assume "0 \<le> av_open_input_file_ret fc \<and> \<not> context_null fc
            \<and> 0 \<le> av_find_stream_info_ret fc \<and> \<not> (0 < ef \<and> ef \<le> max sf 0)
            \<and> (time_base_num c = 1 \<longrightarrow> 0 < time_base_den c) \<and> sf \<le> 0"
  with assms show "ok_state (construct fc fname lp sf ef) \<noteq> None"
    by (intro construct_video_only_succeeds) auto
next
  fix s s1
  assume h: "construct fc fname lp sf ef = Ok s
            \<and> (\<forall>r\<in>set rs. 0 \<le> stream_index (snd r)) \<and> run s rs = Ok s1"
  from h have "construct fc fname lp sf ef = Ok s" by simp
  then have init: "audio_s_index s = - 1 \<and> loop s = lp
      \<and> items (audio_packet_buffer s) = (if 0 < sf then [[]] else [])"
  proof (cases rule: construct_OkE)
    case (1 s3 s4 s5 s6)
    have s4: "audio_s_index s4 = - 1" "loop s4 = lp" "start_frame s4 = max sf 0"
      "audio_packet_buffer s4 = new_queue"
      using open_video_Ok [OF 1(6)] by (simp_all add: 1(5) init_members_def step_defs)
    have s5: "audio_s_index s5 = - 1" "loop s5 = lp" "start_frame s5 = max sf 0"
      "audio_packet_buffer s5 = new_queue"
      using open_audio_Ok [OF 1(7)] s4 assms(2) by simp_all
    have s6: "audio_s_index s6 = - 1 \<and> loop s6 = lp
      \<and> items (audio_packet_buffer s6) = (if 0 < sf then [[]] else [])"
    proof (cases "0 < sf")
      case True
      with 1(9) s5 have "seek_frame s5 (start_frame s5) 0 = Ok s6" by simp
      from seek_frame_Ok [OF this] s5 True show ?thesis
        by (simp add: items_try_push new_queue_def size_q_def tbb_default_capacity_def)
    next
      case False
      with 1(9) s5 have "s6 = s5" by simp
      with s5 False show ?thesis by (simp add: new_queue_def)
    qed
    with 1(10) show ?thesis by (simp add: step_defs)
  qed
  from h init run_audio_markers [of s rs s1]
  have inv: "set (items (audio_packet_buffer s1)) \<subseteq> set (items (audio_packet_buffer s)) \<union> {[]}"
    "\<not> lp \<longrightarrow> audio_packet_buffer s1 = audio_packet_buffer s"
    by auto
  from inv(1) init show "set (items (audio_packet_buffer s1)) \<subseteq> {[]}"
    by (auto split: if_splits)
  assume "sf \<le> 0 \<and> \<not> lp"
  with inv(2) init show "fst (get_audio_packet s1) = None"
    by (simp add: fst_get_audio_packet try_pop_def)
qed

text \<open>
  Witness for C6 as amended: the file with one video stream, start frame 0, no looping,
  and one video packet read.
\<close>

theorem video_only_audio_packets_witness:
  "ok_state (construct video_only_file ''clip'' False 0 (- 1)) \<noteq> None
   \<and> map_option (fst \<circ> get_audio_packet)
       (ok_state (construct_and_run video_only_file ''clip'' False 0 (- 1) [(0, video_packet)]))
     = Some None"
proof -
  let ?c = "\<lparr>time_base_num = 1, time_base_den = 25000, frame_number = 0\<rparr>"
  note t = video_only_audio_packets [of video_only_file ?c 0 "- 1" 0 "''clip''" False
      "[(0, video_packet)]", OF video_only_file_simps(5) video_only_file_simps(6)]
  from t have ok: "ok_state (construct video_only_file ''clip'' False 0 (- 1)) \<noteq> None"
    by (simp add: video_only_file_simps)
  have "\<exists>s s1. construct video_only_file ''clip'' False 0 (- 1) = Ok s
      \<and> run s [(0, video_packet)] = Ok s1"
    by (simp add: eval_defs video_only_file_simps ilog10_25000)
  then obtain s s1 where s: "construct video_only_file ''clip'' False 0 (- 1) = Ok s"
    and s1: "run s [(0, video_packet)] = Ok s1"
    by blast
  from t s s1 have "fst (get_audio_packet s1) = None"
    by (simp add: video_packet_def)
  with ok s s1 show ?thesis
    by (simp add: construct_and_run_def obind_def ok_state_def)
qed

subsection \<open>C7: the time-base correction\<close>

text \<open>
  Claim C7 says that a numerator 1 is replaced by 10 to the power of the number of
  digits of the denominator less one. The source takes the integer part of the decimal
  logarithm, which is already one less than the number of digits, and subtracts one
  more: for the time base 1/25000, whose logarithm 4.39... has the integer part 4 in
  any arithmetic, the numerator becomes 1000, and the claimed value is 10000.
\<close>

theorem fix_time_base_counterexample:
  "map_option video_codec_context (ok_state (construct video_only_file ''clip'' False 0 (- 1))) =
     Some (Some \<lparr>time_base_num = 1000, time_base_den = 25000, frame_number = 0\<rparr>)
   \<and> (10 :: int) ^ (digits 25000 - 1) = 10000"
  by (simp add: eval_defs video_only_file_simps ilog10_25000 digits_25000)

text \<open>
  Claim C7 as amended: after a successful construction, the codec context of the video
  stream that was opened has its numerator replaced, when the numerator was 1, by 10 to
  the power \<^verbatim>\<open>e - 1\<close> (by 0 when that is negative), where \<^verbatim>\<open>e\<close> is the integer part of the
  decimal logarithm of the denominator as the platform computes it in \<^verbatim>\<open>float\<close>; a
  numerator other than 1 is left as it was, and nothing else in the context changes.
  Wherever \<^verbatim>\<open>e\<close> is the number of digits of the denominator less one, as it is unless
  floating-point rounding carries the logarithm of a denominator at or just below a
  power of ten to the next integer, the new numerator is 10 to the power of the number
  of digits less two, and 0 for a denominator of one digit.
\<close>

theorem fix_time_base_video:
  assumes "construct fc fname lp sf ef = Ok s"
    and "open_stream fc CODEC_TYPE_VIDEO = Some (c, i)"
  shows "video_codec_context s =
      Some (if time_base_num c = 1
            then c\<lparr>time_base_num := pow10_int (float_log10 fc (time_base_den c) - 1)\<rparr>
            else c)
    \<and> (float_log10 fc (time_base_den c) = int (digits (nat (time_base_den c))) - 1 \<longrightarrow>
         pow10_int (float_log10 fc (time_base_den c) - 1) =
           (if digits (nat (time_base_den c)) < 2 then 0
            else 10 ^ (digits (nat (time_base_den c)) - 2)))"
  using assms(1)
proof (cases rule: construct_OkE)
  case (1 s3 s4 s5 s6)
  have v4: "fix_time_base (float_log10 fc) (Some c) = Ok (video_codec_context s4)"
    using open_video_Ok(11) [OF 1(6)] assms(2) by simp
  have v5: "video_codec_context s5 = video_codec_context s4"
  proof (cases "open_stream fc CODEC_TYPE_AUDIO")
    case None
    then show ?thesis using open_audio_Ok(10) [OF 1(7)] by simp
  next
    case (Some a)
    then have "fix_time_base (float_log10 fc) (video_codec_context s4) =
        Ok (video_codec_context s5)"
      using open_audio_Ok(10) [OF 1(7)] by (cases a) simp
    from fix_time_base_twice [OF v4 this] show ?thesis .
  qed
  have v6: "video_codec_context s6 = video_codec_context s5"
    using 1(9) seek_frame_Ok(7) [of s5 "start_frame s5" 0 s6] by (simp split: if_splits)
  have "video_codec_context s = video_codec_context s6"
    using 1(10) by (simp add: step_defs)
  with v6 v5 fix_time_base_SomeD [OF v4]
  have "video_codec_context s =
      Some (if time_base_num c = 1
            then c\<lparr>time_base_num := pow10_int (float_log10 fc (time_base_den c) - 1)\<rparr>
            else c)"
    by simp
  then show ?thesis
    using pow10_int_digits [of "float_log10 fc (time_base_den c)" "nat (time_base_den c)"]
    by blast
qed

text \<open>
  Witness for C7 as amended: the file with the video time base 1/25000, where the
  integer part of the logarithm is 4, the number of digits less one.
\<close>

theorem fix_time_base_video_witness:
  "map_option video_codec_context (ok_state (construct video_only_file ''clip'' False 0 (- 1))) =
     Some (Some \<lparr>time_base_num = 10 ^ (digits 25000 - 2), time_base_den = 25000,
                 frame_number = 0\<rparr>)
   \<and> float_log10 video_only_file 25000 = int (digits 25000) - 1"
proof -
  obtain s where s: "construct video_only_file ''clip'' False 0 (- 1) = Ok s"
    by (simp add: eval_defs video_only_file_simps ilog10_25000)
  have e: "float_log10 video_only_file 25000 = int (digits 25000) - 1"
    by (simp add: video_only_file_simps ilog10_25000 digits_25000)
  from fix_time_base_video [OF s video_only_file_simps(5)] s e show ?thesis
    by (simp add: ok_state_def digits_25000)
qed

subsection \<open>C8: the timestamp of a seek\<close>

text \<open>
  Claim C8 says that the timestamp is the frame number times the numerator times
  \<^verbatim>\<open>AV_TIME_BASE\<close>, divided last by the denominator, and that the seek carries the caller's
  flags. The source divides first and multiplies the truncated quotient by the frame
  number, and it adds \<^verbatim>\<open>AVSEEK_FLAG_FRAME\<close> to the flags: with the time base 1001/30000 the
  initial seek to frame 3 asks for timestamp 100098 with flags 8, where the claimed
  timestamp is 100100 and the flags passed are 0.
\<close>

theorem seek_frame_timestamp_counterexample:
  "map_option calls (ok_state (construct ntsc_file ''clip'' False 3 (- 1))) =
     Some [Av_open_input_file, Av_find_stream_info, Av_seek_frame (- 1) 100098 8]
   \<and> 3 * 1001 * AV_TIME_BASE div 30000 = (100100 :: int)"
  by (simp add: eval_defs ntsc_file_simps)

text \<open>
  Claim C8 as amended: a seek that succeeds asks libavformat once, for stream index -1,
  for the timestamp that is the frame number times the quotient, truncated towards zero,
  of \<^verbatim>\<open>AV_TIME_BASE\<close> times the numerator by the denominator of the default stream's time
  base, with the caller's flags and \<^verbatim>\<open>AVSEEK_FLAG_FRAME\<close>.
\<close>

theorem seek_frame_timestamp:
  assumes "seek_frame s frame flags = Ok s1" and "get_default_context s = Some c"
  shows "calls s1 = calls s @ [Av_seek_frame (- 1)
           (frame * tdiv (AV_TIME_BASE * time_base_num c) (time_base_den c))
           (flags OR AVSEEK_FLAG_FRAME)]"
  using seek_frame_OkD [OF assms(1)] assms(2) by auto

text \<open>
  Witness for C8 as amended: a seek to frame 3 with the time base 1000/25000.
\<close>

theorem seek_frame_timestamp_witness:
  "map_option calls (ok_state (seek_frame playing 3 0)) = Some [Av_seek_frame (- 1) 120000 8]"
proof -
  obtain s1 where h: "seek_frame playing 3 0 = Ok s1"
    by (simp add: seek_frame_def get_default_context_def state_defs video_only_file_simps
        in_int32_def in_int64_def tdiv_def Let_def const_defs)
  have c: "get_default_context playing =
      Some \<lparr>time_base_num = 1000, time_base_den = 25000, frame_number = 0\<rparr>"
    by (simp add: get_default_context_def state_defs)
  from seek_frame_timestamp [OF h c] h show ?thesis
    by (simp add: ok_state_def state_defs tdiv_def const_defs)
qed

subsection \<open>C9: the frame window\<close>

text \<open>
  Claim C9: construction with looping on, an end frame greater than 0 and an end frame
  not greater than the start frame throws \<^verbatim>\<open>invalid_argument\<close>; at the throw nothing has
  been asked of libavformat, no format context is held, the executor is not running and
  nothing is scheduled.
\<close>

theorem construct_rejects_window:
  assumes "lp" and "0 < ef" and "ef \<le> sf"
  shows "construct fc fname lp sf ef = Throw Invalid_argument (init_members fname lp sf ef)
    \<and> calls (init_members fname lp sf ef) = []
    \<and> format_context (init_members fname lp sf ef) = None
    \<and> \<not> running (init_members fname lp sf ef)
    \<and> scheduled (init_members fname lp sf ef) = 0"
  using assms by (simp add: construct_def init_members_def)

text \<open>
  Witness for C9: looping, start frame 5 and end frame 5.
\<close>

theorem construct_rejects_window_witness:
  "construct video_only_file ''clip'' True 5 5 =
     Throw Invalid_argument (init_members ''clip'' True 5 5)
    \<and> calls (init_members ''clip'' True 5 5) = []
    \<and> format_context (init_members ''clip'' True 5 5) = None
    \<and> \<not> running (init_members ''clip'' True 5 5)
    \<and> scheduled (init_members ''clip'' True 5 5) = 0"
  using construct_rejects_window [of True 5 5 video_only_file "''clip''"] by simp

subsection \<open>C10: a negative start frame\<close>

text \<open>
  Claim C10 says that an object constructed with a negative start frame behaves as one
  constructed with start frame 0. The initialiser of \<^verbatim>\<open>start_frame_\<close> clamps the argument,
  and \<^verbatim>\<open>read_file\<close> advances \<^verbatim>\<open>eof_count_\<close> by \<^verbatim>\<open>end_frame_ - start_frame_\<close>, the clamped member;
  but the initialiser of \<^verbatim>\<open>eof_count_\<close> subtracts the argument as it was passed. With start
  frame -5 and end frame 10 both objects store start frame 0 and seek nowhere, yet
  \<^verbatim>\<open>eof_count_\<close> is 15 instead of 10: once the decoder has counted 11 frames, the object
  constructed with 0 is at end of stream and the one constructed with -5 is not.
\<close>

theorem negative_start_frame_eof_count:
  "map_option start_frame (ok_state (construct video_only_file ''clip'' False (- 5) 10)) = Some 0
   \<and> map_option start_frame (ok_state (construct video_only_file ''clip'' False 0 10)) = Some 0
   \<and> map_option calls (ok_state (construct video_only_file ''clip'' False (- 5) 10)) =
       Some [Av_open_input_file, Av_find_stream_info]
   \<and> map_option calls (ok_state (construct video_only_file ''clip'' False 0 10)) =
       Some [Av_open_input_file, Av_find_stream_info]
   \<and> map_option eof_count (ok_state (construct video_only_file ''clip'' False (- 5) 10)) = Some 15
   \<and> map_option eof_count (ok_state (construct video_only_file ''clip'' False 0 10)) = Some 10
   \<and> (case construct video_only_file ''clip'' False (- 5) 10 of
         Ok s \<Rightarrow> is_eof (decoded 11 s) 0 = Some False
       | Throw e s \<Rightarrow> False
       | Undefined \<Rightarrow> False)
   \<and> (case construct video_only_file ''clip'' False 0 10 of
         Ok s \<Rightarrow> is_eof (decoded 11 s) 0 = Some True
       | Throw e s \<Rightarrow> False
       | Undefined \<Rightarrow> False)"
  by (simp add: eval_defs video_only_file_simps ilog10_25000 decoded_def)

end
